theory Spec2Isabelle
  imports Complex_Main
begin

section \<open>JavaScript numbers\<close>

text \<open>
  The formulas of \<^verbatim>\<open>page.tsx\<close> compute with JavaScript numbers. A number is modelled
  as a real or one of the three special values. In the formulas, arithmetic on reals is
  exact: the rounding of a result to 53 bits is not part of their model, the two zeros
  are one (taken as the positive zero where a sign is needed) and \<open>+\<close>, \<open>*\<close>, \<open>/\<close> and
  \<^verbatim>\<open>Math.pow\<close> do not overflow. \<^verbatim>\<open>Math.exp\<close> leaves the range of doubles at arguments
  of a few hundred, so its overflow to \<^verbatim>\<open>Infinity\<close> and its underflow to zero are
  written out. Division by zero, \<^verbatim>\<open>NaN\<close> and the infinities behave as in ECMAScript.
  The calculations of the page compare a total with a computed product at its boundary;
  there the operations round to the nearest double, as IEEE 754 has it.
\<close>

datatype number = Num real | PInf | NInf | NaN

fun isFinite :: "number \<Rightarrow> bool" where
  "isFinite (Num _) = True"
| "isFinite _ = False"

text \<open>The sign of a number that is not \<^verbatim>\<open>NaN\<close>; zero counts as positive.\<close>

fun negative :: "number \<Rightarrow> bool" where
  "negative (Num a) = (a < 0)"
| "negative NInf = True"
| "negative _ = False"

fun signed_inf :: "bool \<Rightarrow> number" where
  "signed_inf neg = (if neg then NInf else PInf)"

instantiation number :: "{plus, uminus, minus, times, inverse, ord}"
begin

fun plus_number :: "number \<Rightarrow> number \<Rightarrow> number" where
  "Num a + Num b = Num (a + b)"
| "NaN + _ = NaN"
| "_ + NaN = NaN"
| "PInf + NInf = NaN"
| "NInf + PInf = NaN"
| "PInf + _ = PInf"
| "_ + PInf = PInf"
| "NInf + _ = NInf"
| "_ + NInf = NInf"

fun uminus_number :: "number \<Rightarrow> number" where
  "- Num a = Num (- a)"
| "- PInf = NInf"
| "- NInf = PInf"
| "- NaN = NaN"

definition minus_number :: "number \<Rightarrow> number \<Rightarrow> number" where
  "a - b = a + (- b)" for a b :: number

fun times_number :: "number \<Rightarrow> number \<Rightarrow> number" where
  "Num a * Num b = Num (a * b)"
| "NaN * _ = NaN"
| "_ * NaN = NaN"
| "Num a * y = (if a = 0 then NaN else signed_inf (negative (Num a) \<noteq> negative y))"
| "x * Num b = (if b = 0 then NaN else signed_inf (negative x \<noteq> negative (Num b)))"
| "(x::number) * (y::number) = signed_inf (negative x \<noteq> negative y)"

fun divide_number :: "number \<Rightarrow> number \<Rightarrow> number" where
  "divide_number (Num a) (Num b) =
     (if b = 0 then (if a = 0 then NaN else signed_inf (a < 0)) else Num (a / b))"
| "divide_number NaN _ = NaN"
| "divide_number _ NaN = NaN"
| "divide_number (Num a) _ = Num 0"
| "divide_number x (Num b) = signed_inf (negative x \<noteq> negative (Num b))"
| "divide_number _ _ = NaN"

definition inverse_number :: "number \<Rightarrow> number" where
  "inverse_number a = divide (Num 1) a"

fun less_number :: "number \<Rightarrow> number \<Rightarrow> bool" where
  "Num a < Num b = (a < b)"
| "NaN < _ = False"
| "_ < NaN = False"
| "_ < NInf = False"
| "PInf < _ = False"
| "(_::number) < (_::number) = True"

fun less_eq_number :: "number \<Rightarrow> number \<Rightarrow> bool" where
  "Num a \<le> Num b = (a \<le> b)"
| "NaN \<le> _ = False"
| "_ \<le> NaN = False"
| "NInf \<le> _ = True"
| "_ \<le> PInf = True"
| "(_::number) \<le> (_::number) = False"

instance ..

end

text \<open>
  Addition is associative and commutative with zero as unit, also on the special values,
  so sums over lists and index ranges are available for numbers.
\<close>

instantiation number :: comm_monoid_add
begin

definition zero_number :: number where
  "zero_number = Num 0"

instance
proof
  fix x y z :: number
  show "0 + x = x"
    unfolding zero_number_def by (cases x; simp)
  show "x + y = y + x"
    by (cases x; cases y; simp)
  show "(x + y) + z = x + (y + z)"
    by (cases x; cases y; cases z; simp)
qed

end

text \<open>\<^verbatim>\<open>Math.max\<close> and \<^verbatim>\<open>Math.min\<close> of two arguments: \<^verbatim>\<open>NaN\<close> if either is.\<close>

fun Math_max :: "number \<Rightarrow> number \<Rightarrow> number" where
  "Math_max NaN _ = NaN"
| "Math_max _ NaN = NaN"
| "Math_max a b = (if a < b then b else a)"

fun Math_min :: "number \<Rightarrow> number \<Rightarrow> number" where
  "Math_min NaN _ = NaN"
| "Math_min _ NaN = NaN"
| "Math_min a b = (if b < a then b else a)"

text \<open>
  \<^verbatim>\<open>Math.exp\<close>: a result of \<open>2^1024\<close> or more is \<^verbatim>\<open>Infinity\<close>, one of at most
  \<open>2^-1075\<close> (half the least positive double) is zero.
\<close>

definition exp_overflow :: real where
  "exp_overflow = 2 ^ 1024"

definition exp_underflow :: real where
  "exp_underflow = 1 / 2 ^ 1075"

fun Math_exp :: "number \<Rightarrow> number" where
  "Math_exp (Num x) =
     (if exp_overflow \<le> exp x then PInf
      else if exp x \<le> exp_underflow then Num 0
      else Num (exp x))"
| "Math_exp PInf = PInf"
| "Math_exp NInf = Num 0"
| "Math_exp NaN = NaN"

text \<open>
  \<^verbatim>\<open>Math.pow\<close>, in the case order of ECMAScript's \<^verbatim>\<open>Number::exponentiate\<close>.
  \<open>odd_integer e\<close> says that the finite exponent is an odd integer.
\<close>

definition is_integer :: "real \<Rightarrow> bool" where
  "is_integer e = (e = of_int \<lfloor>e\<rfloor>)"

definition odd_integer :: "real \<Rightarrow> bool" where
  "odd_integer e = (is_integer e \<and> odd \<lfloor>e\<rfloor>)"

fun Math_pow :: "number \<Rightarrow> number \<Rightarrow> number" where
  "Math_pow _ NaN = NaN"
| "Math_pow NaN (Num e) = (if e = 0 then Num 1 else NaN)"
| "Math_pow NaN _ = NaN"
| "Math_pow PInf (Num e) = (if e = 0 then Num 1 else if 0 < e then PInf else Num 0)"
| "Math_pow PInf PInf = PInf"
| "Math_pow PInf NInf = Num 0"
| "Math_pow NInf (Num e) =
     (if e = 0 then Num 1
      else if 0 < e then (if odd_integer e then NInf else PInf)
      else Num 0)"
| "Math_pow NInf PInf = PInf"
| "Math_pow NInf NInf = Num 0"
| "Math_pow (Num b) PInf =
     (if b = 0 then Num 0
      else if 1 < \<bar>b\<bar> then PInf else if \<bar>b\<bar> = 1 then NaN else Num 0)"
| "Math_pow (Num b) NInf =
     (if b = 0 then PInf
      else if 1 < \<bar>b\<bar> then Num 0 else if \<bar>b\<bar> = 1 then NaN else PInf)"
| "Math_pow (Num b) (Num e) =
     (if e = 0 then Num 1
      else if b = 0 then (if 0 < e then Num 0 else PInf)
      else if 0 < b then Num (b powr e)
      else if is_integer e then Num (if odd \<lfloor>e\<rfloor> then - (\<bar>b\<bar> powr e) else \<bar>b\<bar> powr e)
      else NaN)"

subsection \<open>Rounding to doubles\<close>









section \<open>Utilities and formulas\<close>

text \<open>
  \<^verbatim>\<open>clamp\<close>, \<^verbatim>\<open>riFromDeltaV\<close>, \<^verbatim>\<open>relEdge\<close> and \<^verbatim>\<open>gripMult\<close> have the same text in
  both variants of \<^verbatim>\<open>page.tsx\<close> (the time-per-climb calculator and the minimal one).
\<close>

definition clamp :: "number \<Rightarrow> number \<Rightarrow> number \<Rightarrow> number" where
  "clamp n lo hi = Math_min hi (Math_max lo n)"

text \<open>The local \<^verbatim>\<open>ri\<close> of \<^verbatim>\<open>riFromDeltaV\<close>, before the clamp.\<close>

definition riFromDeltaV_ri :: "number \<Rightarrow> number" where
  "riFromDeltaV_ri delta = Num 0.35 + Num 0.75 / (Num 1 + Math_exp (delta - Num 1.5))"

definition riFromDeltaV :: "number \<Rightarrow> number" where
  "riFromDeltaV delta = clamp (riFromDeltaV_ri delta) (Num 0) (Num 1.15)"

definition restFreshness :: "number \<Rightarrow> number" where
  "restFreshness days =
     (let f = Num 0.85 + Num 0.02 * Math_min (Math_max days (Num 0)) (Num 10)
      in clamp f (Num 0.75) (Num 1.1))"

definition densityFactor :: "number \<Rightarrow> number \<Rightarrow> number \<Rightarrow> number" where
  "densityFactor totalTUTs totalRest densityExp =
     (let ratio = totalTUTs / Math_max (Num 1) (totalTUTs + totalRest)
      in Math_pow ratio densityExp)"

definition climbWeight :: "number \<Rightarrow> number \<Rightarrow> number" where
  "climbWeight i fatigueRate =
     (if fatigueRate \<le> Num 0 then Num 1
      else Math_exp (- fatigueRate * (i - Num 1)))"

section \<open>Bouldering with time per climb\<close>

record Climb =
  grade :: number
  tutSec :: number

record BoulderingParams =
  vMax :: number
  restDays :: number
  avgRestBetweenClimbsSec :: number
  densityExp :: number
  useDensity :: bool
  fatigueRate :: number
  climbs :: "Climb list"

record BoulderingMeta =
  totalTUT :: number
  totalRestWithin :: number
  FR :: number
  DF :: number

record BoulderingResult =
  TLI_boulder :: number
  meta :: BoulderingMeta

text \<open>
  \<^verbatim>\<open>xs.reduce((acc, x, idx) => f(acc, x, idx), init)\<close> is \<open>reduce_idx f 0 init xs\<close>:
  the callback sees the accumulator, the element and its 0-based index.
\<close>

fun reduce_idx :: "('b \<Rightarrow> 'a \<Rightarrow> nat \<Rightarrow> 'b) \<Rightarrow> nat \<Rightarrow> 'b \<Rightarrow> 'a list \<Rightarrow> 'b" where
  "reduce_idx f idx acc [] = acc"
| "reduce_idx f idx acc (x # xs) = reduce_idx f (Suc idx) (f acc x idx) xs"

definition boulderingTLI :: "BoulderingParams \<Rightarrow> BoulderingResult" where
  "boulderingTLI params =
     (let totalClimbs = Num (real (length (climbs params)));
          totalTUT = foldl (\<lambda>a c. a + Math_max (Num 0) (tutSec c)) (Num 0) (climbs params);
          totalRestWithin =
            Math_max (Num 0)
              ((totalClimbs - Num 1) * Math_max (Num 0) (avgRestBetweenClimbsSec params));
          FR = restFreshness (restDays params);
          DF = (if useDensity params
                then densityFactor totalTUT totalRestWithin (densityExp params)
                else Num 1);
          sum = reduce_idx
                  (\<lambda>acc c idx.
                     let delta = vMax params - grade c;
                         ri = riFromDeltaV delta;
                         w = climbWeight (Num (real idx) + Num 1) (fatigueRate params)
                     in acc + ri * tutSec c * w)
                  0 (Num 0) (climbs params)
      in \<lparr>TLI_boulder = FR * DF * sum,
          meta = \<lparr>totalTUT = totalTUT, totalRestWithin = totalRestWithin, FR = FR, DF = DF\<rparr>\<rparr>)"

section \<open>Hangboard (single row model)\<close>

datatype grip = Open | Half | Full

definition relEdge :: "number \<Rightarrow> number \<Rightarrow> number" where
  "relEdge edgeMM k = Math_pow (Num 20 / edgeMM) k"

definition gripMult :: "grip \<Rightarrow> number" where
  "gripMult g = (if g = Full then Num 1.1 else if g = Open then Num 0.85 else Num 1.0)"

text \<open>The optional \<^verbatim>\<open>mvc20kg\<close> is \<open>None\<close> when the field is undefined.\<close>

record HangboardRow =
  bodyKg :: number
  addedKg :: number
  edgeMM :: number
  grip :: grip
  durationSec :: number
  reps :: number
  restBetweenRepsSec :: number
  mvc20kg :: "number option"
  densityExpHB :: number
  kEdgeExp :: number

record HangboardResult =
  perSet :: number
  TUT :: number
  totalRest :: number
  hb_DF :: number

definition hangboardSetTLI :: "'a HangboardRow_scheme \<Rightarrow> HangboardResult" where
  "hangboardSetTLI row =
     (let mvc20 = (case mvc20kg row of Some m \<Rightarrow> m | None \<Rightarrow> bodyKg row + Num 20);
          mvcEdge = mvc20 * relEdge (edgeMM row) (kEdgeExp row) * gripMult (grip row);
          ri = clamp ((bodyKg row + addedKg row) / mvcEdge) (Num 0) (Num 1.2);
          TUT = durationSec row * reps row;
          totalRest = restBetweenRepsSec row * Math_max (Num 0) (reps row - Num 1);
          DF = Math_pow (TUT / Math_max (Num 1) (TUT + totalRest)) (densityExpHB row)
      in \<lparr>perSet = ri * TUT * DF, TUT = TUT, totalRest = totalRest, hb_DF = DF\<rparr>)"

section \<open>Recommendation helper\<close>



section \<open>The calculations of the page\<close>




section \<open>The minimal calculator\<close>

text \<open>
  The minimal variant of \<^verbatim>\<open>page.tsx\<close> has its own \<^verbatim>\<open>hangboardSetTLI\<close>, which returns
  the load of one set alone, and renormalises the grade fractions before use.
\<close>

definition hangboardSetTLI_minimal :: "'a HangboardRow_scheme \<Rightarrow> number" where
  "hangboardSetTLI_minimal row =
     (let mvc20 = (case mvc20kg row of Some m \<Rightarrow> m | None \<Rightarrow> bodyKg row + Num 20);
          mvcEdge = mvc20 * relEdge (edgeMM row) (kEdgeExp row) * gripMult (grip row);
          ri = clamp ((bodyKg row + addedKg row) / mvcEdge) (Num 0) (Num 1.2);
          TUT = durationSec row * reps row;
          totalRest = restBetweenRepsSec row * Math_max (Num 0) (reps row - Num 1);
          DF = Math_pow (TUT / Math_max (Num 1) (TUT + totalRest)) (densityExpHB row)
      in ri * TUT * DF)"

text \<open>
  \<^verbatim>\<open>normalizeFractions\<close> takes rows of any shape that have a \<^verbatim>\<open>fraction\<close> and keeps
  their other fields.
\<close>

record FractionRow =
  fraction :: number

definition normalizeFractions :: "'a FractionRow_scheme list \<Rightarrow> 'a FractionRow_scheme list" where
  "normalizeFractions rows =
     (let s = foldl (\<lambda>a r. a + (if isFinite (fraction r) then fraction r else Num 0)) (Num 0) rows;
          safe = (if s > Num 0 then s else Num 1)
      in map (\<lambda>r. r\<lparr>fraction := fraction r / safe\<rparr>) rows)"

definition sumFractions :: "'a FractionRow_scheme list \<Rightarrow> number" where
  "sumFractions rows =
     foldl (\<lambda>a r. a + (if isFinite (fraction r) then fraction r else Num 0)) (Num 0) rows"

section \<open>The formulas as the specification words them\<close>

text \<open>
  The bouldering load as the specification states it: the freshness factor times the
  density factor times the sum, over the climbs at the 1-indexed positions \<open>i\<close>, of
  \<open>RI(vMax - grade\<^sub>i) * tutSec\<^sub>i * climbWeight(i, fatigueRate)\<close>.
\<close>

definition totalTUT_spec :: "BoulderingParams \<Rightarrow> number" where
  "totalTUT_spec p = (\<Sum>c\<leftarrow>climbs p. Math_max (Num 0) (tutSec c))"

definition totalRestWithin_spec :: "BoulderingParams \<Rightarrow> number" where
  "totalRestWithin_spec p =
     Math_max (Num 0)
       ((Num (real (length (climbs p))) - Num 1) * Math_max (Num 0) (avgRestBetweenClimbsSec p))"

definition DF_spec :: "BoulderingParams \<Rightarrow> number" where
  "DF_spec p =
     (if useDensity p
      then densityFactor (totalTUT_spec p) (totalRestWithin_spec p) (densityExp p)
      else Num 1)"

definition TLI_boulder_spec :: "BoulderingParams \<Rightarrow> number" where
  "TLI_boulder_spec p =
     restFreshness (restDays p) * DF_spec p *
     (\<Sum>i = 1..length (climbs p).
        riFromDeltaV (vMax p - grade (climbs p ! (i - 1))) * tutSec (climbs p ! (i - 1))
          * climbWeight (Num (real i)) (fatigueRate p))"

text \<open>
  The load of one hangboard set as the specification states it, with the grip multiplier
  as a table and the clamp written out.
\<close>

definition gripMultiplier_spec :: "grip \<Rightarrow> number" where
  "gripMultiplier_spec g = (case g of Full \<Rightarrow> Num 1.1 | Open \<Rightarrow> Num 0.85 | Half \<Rightarrow> Num 1.0)"

definition perSet_spec :: "'a HangboardRow_scheme \<Rightarrow> number" where
  "perSet_spec row =
     (let mvc20 = (case mvc20kg row of Some m \<Rightarrow> m | None \<Rightarrow> bodyKg row + Num 20);
          mvcEdge = mvc20 * Math_pow (Num 20 / edgeMM row) (kEdgeExp row)
                      * gripMultiplier_spec (grip row);
          RI = Math_min (Num 1.2) (Math_max (Num 0) ((bodyKg row + addedKg row) / mvcEdge));
          TUT = durationSec row * reps row;
          totalRest = restBetweenRepsSec row * Math_max (Num 0) (reps row - Num 1);
          DF = Math_pow (TUT / Math_max (Num 1) (TUT + totalRest)) (densityExpHB row)
      in RI * TUT * DF)"

section \<open>Sample inputs\<close>

text \<open>The bouldering defaults of the page, with no climb entered.\<close>

definition empty_session :: BoulderingParams where
  "empty_session =
     \<lparr>vMax = Num 8, restDays = Num 2, avgRestBetweenClimbsSec = Num 90, densityExp = Num 0.5,
      useDensity = True, fatigueRate = Num 0.02, climbs = []\<rparr>"

text \<open>A session of two climbs, the first entered with a negative time under tension.\<close>

definition negative_tut_session :: BoulderingParams where
  "negative_tut_session =
     \<lparr>vMax = Num 8, restDays = Num 2, avgRestBetweenClimbsSec = Num 90, densityExp = Num 1,
      useDensity = True, fatigueRate = Num 0,
      climbs = [\<lparr>grade = Num 6.5, tutSec = Num (- 10)\<rparr>, \<lparr>grade = Num 6.5, tutSec = Num 30\<rparr>]\<rparr>"

definition clamped_tut_session :: BoulderingParams where
  "clamped_tut_session =
     negative_tut_session
       \<lparr>climbs := [\<lparr>grade = Num 6.5, tutSec = Num 0\<rparr>, \<lparr>grade = Num 6.5, tutSec = Num 30\<rparr>]\<rparr>"

text \<open>The hangboard defaults of the page, which are the example of the specification.\<close>

definition hb_example :: HangboardRow where
  "hb_example =
     \<lparr>bodyKg = Num 70, addedKg = Num 10, edgeMM = Num 15, grip = Half, durationSec = Num 10,
      reps = Num 5, restBetweenRepsSec = Num 0, mvc20kg = None, densityExpHB = Num 0.5,
      kEdgeExp = Num 0.45\<rparr>"



section \<open>Lemmas on numbers\<close>

lemma Num_zero_add [simp]: "Num 0 + a = a" "a + Num 0 = a"
  by (cases a; simp)+

lemma isFinite_Num: "isFinite x \<Longrightarrow> \<exists>f. x = Num f"
  by (cases x) simp_all

lemma foldl_sum:
  fixes g :: "'a \<Rightarrow> number"
  shows "foldl (\<lambda>a x. a + g x) acc xs = acc + sum_list (map g xs)"
  by (induction xs arbitrary: acc) (simp_all add: add.assoc)

lemma reduce_idx_sum:
  fixes g :: "'a \<Rightarrow> nat \<Rightarrow> number"
  shows "reduce_idx (\<lambda>acc x idx. acc + g x idx) k acc xs
         = acc + (\<Sum>j<length xs. g (xs ! j) (k + j))"
proof (induction xs arbitrary: k acc)
  case Nil
  then show ?case by simp
next
  case (Cons x xs)
  have "(\<Sum>j<Suc (length xs). g ((x # xs) ! j) (k + j))
        = g x k + (\<Sum>j<length xs. g (xs ! j) (Suc k + j))"
    by (simp add: sum.lessThan_Suc_shift del: sum.lessThan_Suc)
  with Cons show ?case by (simp add: add.assoc)
qed

lemma sum_shift_1:
  fixes h :: "nat \<Rightarrow> number"
  shows "(\<Sum>j<n. h (Suc j)) = (\<Sum>i = 1..n. h i)"
proof -
  have "(\<Sum>i = 1..n. h i) = (\<Sum>i = Suc 0..<Suc n. h i)"
    by (simp add: atLeastLessThanSuc_atLeastAtMost)
  also have "\<dots> = (\<Sum>j = 0..<n. h (Suc j))"
    by (rule sum.shift_bounds_Suc_ivl)
  finally show ?thesis by (simp add: lessThan_atLeast0)
qed

lemma finite_sum:
  "\<forall>r\<in>set rows. isFinite (g r) \<Longrightarrow> \<exists>S. sum_list (map g rows) = Num S"
proof (induction rows)
  case Nil
  then show ?case by (simp add: zero_number_def)
next
  case (Cons x xs)
  then obtain S where "sum_list (map g xs) = Num S" by auto
  moreover obtain a where "g x = Num a" using Cons.prems isFinite_Num by fastforce
  ultimately show ?case by simp
qed

lemma scaled_sum:
  assumes "\<forall>r\<in>set rows. isFinite (g r)" "sum_list (map g rows) = Num S" "c \<noteq> 0"
  shows "sum_list (map (\<lambda>r. g r / Num c) rows) = Num (S / c)"
  using assms
proof (induction rows arbitrary: S)
  case Nil
  then show ?case by (simp add: zero_number_def)
next
  case (Cons x xs)
  obtain a where a: "g x = Num a" using Cons.prems(1) isFinite_Num by fastforce
  obtain T where T: "sum_list (map g xs) = Num T"
    using finite_sum[of xs g] Cons.prems(1) by auto
  have S: "S = a + T" using Cons.prems(2) a T by simp
  have "sum_list (map (\<lambda>r. g r / Num c) xs) = Num (T / c)"
    using Cons.IH[OF _ T Cons.prems(3)] Cons.prems(1) by simp
  with a S Cons.prems(3) show ?case by (simp add: add_divide_distrib)
qed

lemma Math_pow_zero_exp: "Math_pow x (Num 0) = Num 1"
  by (cases x) simp_all

lemma Math_pow_mono:
  assumes "0 \<le> b1" "b1 \<le> b2" "0 \<le> e"
  shows "Math_pow (Num b1) (Num e) \<le> Math_pow (Num b2) (Num e)"
proof (cases "e = 0")
  case True
  then show ?thesis by simp
next
  case False
  with assms have e: "0 < e" by simp
  show ?thesis
  proof (cases "b1 = 0")
    case True
    with e assms show ?thesis by simp
  next
    case False
    with assms have "0 < b1" "0 < b2" by simp_all
    moreover have "b1 powr e \<le> b2 powr e"
      using assms by (intro powr_mono2) simp_all
    ultimately show ?thesis using e by simp
  qed
qed

subsection \<open>The thresholds of the exponential\<close>

lemma exp_ge_two_power: "2 ^ n \<le> exp (real n)"
proof -
  have "(2::real) \<le> exp 1" using exp_ge_add_one_self[of "1::real"] by simp
  then have "(2::real) ^ n \<le> exp 1 ^ n" by (intro power_mono) simp_all
  also have "\<dots> = exp (real n)" by (simp add: exp_of_nat_mult[symmetric])
  finally show ?thesis .
qed

lemma exp_underflow_lt_one: "exp_underflow < 1"
proof -
  have "(1::real) < 2 ^ 1075" by (rule one_less_power) simp_all
  then show ?thesis by (simp add: exp_underflow_def)
qed

lemma exp_overflow_gt_one: "1 < exp_overflow"
  unfolding exp_overflow_def by (rule one_less_power) simp_all

lemma exp_thresholds: "exp_underflow < exp_overflow"
  using exp_underflow_lt_one exp_overflow_gt_one by linarith

section \<open>Relative intensity\<close>

lemma frac_le_num:
  fixes c e :: real
  assumes "0 \<le> c" "0 < e"
  shows "c / (1 + e) \<le> c"
proof -
  have "c / (1 + e) \<le> c / 1" using assms by (intro divide_left_mono) simp_all
  then show ?thesis by simp
qed

lemma frac_antimono:
  fixes c :: real
  assumes "0 \<le> c" "0 < e1" "e1 \<le> e2"
  shows "c / (1 + e2) \<le> c / (1 + e1)"
proof (rule divide_left_mono)
  show "1 + e1 \<le> 1 + e2" using assms by simp
  show "0 \<le> c" by fact
  show "0 < (1 + e2) * (1 + e1)" using assms by (intro mult_pos_pos) linarith+
qed

text \<open>
  The value before the clamp at a finite \<open>delta\<close>: the logistic curve, and its two
  limits where the exponential leaves the range of doubles.
\<close>

lemma ri_cases:
  "riFromDeltaV_ri (Num d) =
     Num (if exp_overflow \<le> exp (d - 1.5) then 0.35
          else if exp (d - 1.5) \<le> exp_underflow then 1.1
          else 0.35 + 0.75 / (1 + exp (d - 1.5)))"
proof -
  have "1 + exp (d - 1.5) \<noteq> 0"
    using exp_gt_zero[of "d - 1.5"] by linarith
  then show ?thesis
    by (simp add: riFromDeltaV_ri_def minus_number_def)
qed

lemma ri_bounds:
  "\<exists>v. riFromDeltaV_ri (Num d) = Num v \<and> 0.35 \<le> v \<and> v \<le> 1.1"
proof -
  have pos: "0 < exp (d - 1.5)" by simp
  have "0 \<le> 0.75 / (1 + exp (d - 1.5))" using pos by simp
  moreover have "0.75 / (1 + exp (d - 1.5)) \<le> 0.75"
    using pos by (intro frac_le_num) simp_all
  ultimately show ?thesis
    unfolding ri_cases by auto
qed

lemma sat_antimono:
  fixes e1 e2 L H :: real
  assumes "0 < e1" "e1 \<le> e2" "L < H"
  shows "(if H \<le> e2 then 0.35 else if e2 \<le> L then 1.1 else 0.35 + 0.75 / (1 + e2))
         \<le> (if H \<le> e1 then 0.35 else if e1 \<le> L then 1.1 else 0.35 + 0.75 / (1 + e1))"
proof -
  have p2: "0 < e2" using assms by linarith
  have a: "0 \<le> 0.75 / (1 + e1)" using assms by simp
  have a2: "0 \<le> 0.75 / (1 + e2)" using p2 by simp
  have b: "0.75 / (1 + e2) \<le> 0.75" using p2 by (intro frac_le_num) simp_all
  have b1: "0.75 / (1 + e1) \<le> 0.75" using assms by (intro frac_le_num) simp_all
  have c: "0.75 / (1 + e2) \<le> 0.75 / (1 + e1)"
    using assms by (intro frac_antimono) simp_all
  show ?thesis
    using assms a a2 b b1 c by (auto split: if_splits)
qed

lemma ri_antimono:
  assumes "d1 \<le> d2"
  shows "riFromDeltaV_ri (Num d2) \<le> riFromDeltaV_ri (Num d1)"
proof -
  have "0 < exp (d1 - 1.5)" "exp (d1 - 1.5) \<le> exp (d2 - 1.5)"
    using assms by simp_all
  from sat_antimono[OF this exp_thresholds] show ?thesis
    unfolding ri_cases by (simp only: less_eq_number.simps)
qed

lemma clamp_id:
  "0.35 \<le> v \<Longrightarrow> v \<le> 1.1 \<Longrightarrow> clamp (Num v) (Num 0) (Num 1.15) = Num v"
  by (simp add: clamp_def)

lemma ri_unclamped: "riFromDeltaV (Num d) = riFromDeltaV_ri (Num d)"
proof -
  obtain v where v: "riFromDeltaV_ri (Num d) = Num v" "0.35 \<le> v" "v \<le> 1.1"
    using ri_bounds by blast
  show ?thesis
    unfolding riFromDeltaV_def v(1) by (rule clamp_id[OF v(2) v(3)])
qed

lemma ri_at_midpoint: "riFromDeltaV (Num 1.5) = Num 0.725"
  using exp_underflow_lt_one exp_overflow_gt_one
  by (simp add: ri_unclamped ri_cases)

text \<open>
  C8. \<^verbatim>\<open>riFromDeltaV\<close> is monotonically non-increasing in \<open>delta\<close>, and at every finite
  \<open>delta\<close> its value lies in the interval from 0 to 1.15.
\<close>

theorem riFromDeltaV_monotone_bounded:
  "(d1 \<le> d2 \<longrightarrow> riFromDeltaV (Num d2) \<le> riFromDeltaV (Num d1))
   \<and> Num 0 \<le> riFromDeltaV (Num d) \<and> riFromDeltaV (Num d) \<le> Num 1.15"
proof -
  obtain v where v: "riFromDeltaV_ri (Num d) = Num v" "0.35 \<le> v" "v \<le> 1.1"
    using ri_bounds by blast
  then have "Num 0 \<le> riFromDeltaV (Num d)" "riFromDeltaV (Num d) \<le> Num 1.15"
    by (simp_all add: ri_unclamped)
  moreover have "d1 \<le> d2 \<longrightarrow> riFromDeltaV (Num d2) \<le> riFromDeltaV (Num d1)"
    by (simp only: ri_unclamped) (rule impI, rule ri_antimono)
  ultimately show ?thesis by blast
qed

theorem riFromDeltaV_monotone_bounded_witness:
  "(0::real) \<le> 2 \<and> riFromDeltaV (Num 2) \<le> riFromDeltaV (Num 0)
   \<and> Num 0 \<le> riFromDeltaV (Num 1) \<and> riFromDeltaV (Num 1) \<le> Num 1.15"
  using riFromDeltaV_monotone_bounded[of 0 2 1] by simp

text \<open>
  C10, as amended. At every finite \<open>delta\<close> the value before the clamp lies in the closed
  interval from 0.35 to 1.1, so the clamp to the interval from 0 to 1.15 never changes it
  and the bounds 0 and 1.15 are never attained. The ends 0.35 and 1.1 are not excluded.
\<close>

theorem riFromDeltaV_ri_range:
  "Num 0.35 \<le> riFromDeltaV_ri (Num d) \<and> riFromDeltaV_ri (Num d) \<le> Num 1.1
   \<and> riFromDeltaV (Num d) = riFromDeltaV_ri (Num d)"
proof -
  obtain v where v: "riFromDeltaV_ri (Num d) = Num v" "0.35 \<le> v" "v \<le> 1.1"
    using ri_bounds by blast
  then show ?thesis by (simp add: ri_unclamped)
qed

text \<open>
  The claim as stated fails: at \<open>delta = 2000\<close> the exponential overflows to
  \<^verbatim>\<open>Infinity\<close>, the quotient is zero and the value is 0.35 itself; at \<open>delta = -2000\<close>
  the exponential underflows to zero and the value is \<open>0.35 + 0.75 = 1.1\<close>.
\<close>

theorem riFromDeltaV_ri_attains_ends:
  "riFromDeltaV_ri (Num 2000) = Num 0.35 \<and> riFromDeltaV_ri (Num (- 2000)) = Num 1.1"
proof -
  have "(2::real) ^ 1024 \<le> 2 ^ 1998" by (rule power_increasing) simp_all
  also have "\<dots> \<le> exp (real 1998)" by (rule exp_ge_two_power)
  also have "\<dots> \<le> exp (2000 - 1.5)" by simp
  finally have over: "exp_overflow \<le> exp (2000 - 1.5)" by (simp only: exp_overflow_def)
  have "(2::real) ^ 1075 \<le> 2 ^ 2001" by (rule power_increasing) simp_all
  also have "\<dots> \<le> exp (real 2001)" by (rule exp_ge_two_power)
  also have "\<dots> \<le> exp (2001.5)" by simp
  finally have up: "(2::real) ^ 1075 \<le> exp 2001.5" .
  have "exp (- 2000 - 1.5) = exp (- (2001.5::real))" by simp
  also have "\<dots> = 1 / exp (2001.5::real)"
    by (simp only: exp_minus inverse_eq_divide)
  also have "\<dots> \<le> 1 / 2 ^ 1075"
    using up by (intro divide_left_mono) simp_all
  finally have low: "exp (- 2000 - 1.5 :: real) \<le> exp_underflow"
    by (simp only: exp_underflow_def)
  have "exp (- 2000 - 1.5 :: real) < 1" by simp
  then have "\<not> exp_overflow \<le> exp (- 2000 - 1.5)"
    using exp_overflow_gt_one by linarith
  with low over show ?thesis unfolding ri_cases by simp
qed

section \<open>Density factor\<close>

lemma densityFactor_Num:
  "densityFactor (Num w) (Num r) e = Math_pow (Num (w / max 1 (w + r))) e"
  by (simp add: densityFactor_def Let_def max_def)

lemma ratio_mono_work:
  fixes w1 w2 r :: real
  assumes "0 \<le> w1" "w1 \<le> w2" "0 \<le> r"
  shows "w1 / max 1 (w1 + r) \<le> w2 / max 1 (w2 + r)"
proof -
  consider (A) "w2 + r \<le> 1" | (B) "w1 + r \<le> 1" "1 < w2 + r" | (C) "1 < w1 + r"
    by linarith
  then show ?thesis
  proof cases
    case A
    then have "max 1 (w1 + r) = 1" "max 1 (w2 + r) = 1" using assms by simp_all
    with assms show ?thesis by simp
  next
    case B
    have "w2 * r \<le> w2 * (1 - w1)" using assms B by (intro mult_left_mono) simp_all
    moreover have "w1 * r \<le> w2 * r" using assms by (intro mult_right_mono) simp_all
    ultimately have "w1 * (w2 + r) \<le> w2" by (simp add: algebra_simps)
    then have "w1 \<le> w2 / (w2 + r)" using B by (simp add: pos_le_divide_eq)
    moreover have "max 1 (w1 + r) = 1" "max 1 (w2 + r) = w2 + r" using B by simp_all
    ultimately show ?thesis by simp
  next
    case C
    then have p1: "0 < w1 + r" and p2: "0 < w2 + r" using assms by simp_all
    have "w1 * r \<le> w2 * r" using assms by (intro mult_right_mono) simp_all
    then have "w1 * (w2 + r) \<le> w2 * (w1 + r)" by (simp add: algebra_simps)
    then have "w1 / (w1 + r) \<le> w2 / (w2 + r)"
      using p1 p2 by (simp add: pos_divide_le_eq pos_le_divide_eq)
    moreover have "max 1 (w1 + r) = w1 + r" "max 1 (w2 + r) = w2 + r"
      using C assms by simp_all
    ultimately show ?thesis by simp
  qed
qed

lemma ratio_mono_rest:
  fixes w r1 r2 :: real
  assumes "0 \<le> w" "r1 \<le> r2"
  shows "w / max 1 (w + r2) \<le> w / max 1 (w + r1)"
proof (rule divide_left_mono)
  show "max 1 (w + r1) \<le> max 1 (w + r2)" using assms by (simp add: max_def)
  show "0 \<le> w" by fact
  have "0 < max 1 (w + r2)" "0 < max 1 (w + r1)" by (simp_all add: max_def)
  then show "0 < max 1 (w + r2) * max 1 (w + r1)" by (rule mult_pos_pos)
qed

lemma ratio_nonneg: "0 \<le> w \<Longrightarrow> 0 \<le> w / max 1 (w + (r::real))"
  by (simp add: max_def)

lemma densityFactor_mono_work:
  assumes "0 \<le> w1" "w1 \<le> w2" "0 \<le> r" "0 \<le> e"
  shows "densityFactor (Num w1) (Num r) (Num e) \<le> densityFactor (Num w2) (Num r) (Num e)"
  unfolding densityFactor_Num
  using assms by (intro Math_pow_mono ratio_mono_work ratio_nonneg)

lemma densityFactor_mono_rest:
  assumes "0 \<le> w" "r1 \<le> r2" "0 \<le> e"
  shows "densityFactor (Num w) (Num r2) (Num e) \<le> densityFactor (Num w) (Num r1) (Num e)"
  unfolding densityFactor_Num
  using assms by (intro Math_pow_mono ratio_mono_rest ratio_nonneg)

lemma densityFactor_no_rest: "1 \<le> w \<Longrightarrow> densityFactor (Num w) (Num 0) (Num e) = Num 1"
  unfolding densityFactor_Num by (simp add: max_def)

text \<open>
  C4, as amended. \<open>densityFactor(w, r, 0) = 1\<close> for all \<open>w\<close> and \<open>r\<close>;
  \<open>densityFactor(w, 0, e) = 1\<close> for every \<open>w \<ge> 1\<close> and every finite \<open>e\<close>; and in exact
  arithmetic, for \<open>w, r \<ge> 0\<close> and an exponent \<open>e \<ge> 0\<close>, holding the other arguments
  fixed, \<open>densityFactor\<close> is non-decreasing in \<open>w\<close> and non-increasing in \<open>r\<close>.
  The monotonicity is that of the formula: \<open>densityFactor\<close> is computed here with exact
  \<open>+\<close> and \<open>/\<close>, whereas the doubles of the code round the sum \<open>w + r\<close> and the
  quotient (and overflow for a sum beyond their range), which can lower the value in the
  last bit when \<open>w\<close> grows.
\<close>

theorem densityFactor_properties:
  "densityFactor w r (Num 0) = Num 1
   \<and> (1 \<le> v \<longrightarrow> densityFactor (Num v) (Num 0) (Num e) = Num 1)
   \<and> (0 \<le> w_lo \<and> w_lo \<le> w_hi \<and> 0 \<le> r_fix \<and> 0 \<le> e_w \<longrightarrow>
        densityFactor (Num w_lo) (Num r_fix) (Num e_w)
          \<le> densityFactor (Num w_hi) (Num r_fix) (Num e_w))
   \<and> (0 \<le> w_fix \<and> 0 \<le> r_lo \<and> r_lo \<le> r_hi \<and> 0 \<le> e_r \<longrightarrow>
        densityFactor (Num w_fix) (Num r_hi) (Num e_r)
          \<le> densityFactor (Num w_fix) (Num r_lo) (Num e_r))"
proof (intro conjI impI)
  show "densityFactor w r (Num 0) = Num 1"
    by (simp add: densityFactor_def Let_def Math_pow_zero_exp)
next
  assume "1 \<le> v"
  then show "densityFactor (Num v) (Num 0) (Num e) = Num 1"
    by (rule densityFactor_no_rest)
next
  assume "0 \<le> w_lo \<and> w_lo \<le> w_hi \<and> 0 \<le> r_fix \<and> 0 \<le> e_w"
  then show "densityFactor (Num w_lo) (Num r_fix) (Num e_w)
               \<le> densityFactor (Num w_hi) (Num r_fix) (Num e_w)"
    by (intro densityFactor_mono_work) simp_all
next
  assume "0 \<le> w_fix \<and> 0 \<le> r_lo \<and> r_lo \<le> r_hi \<and> 0 \<le> e_r"
  then show "densityFactor (Num w_fix) (Num r_hi) (Num e_r)
               \<le> densityFactor (Num w_fix) (Num r_lo) (Num e_r)"
    by (intro densityFactor_mono_rest) simp_all
qed

theorem densityFactor_properties_witness:
  "(1::real) \<le> 50 \<and> densityFactor (Num 50) (Num 0) (Num 0.5) = Num 1
   \<and> (0::real) \<le> 30 \<and> (30::real) \<le> 90 \<and> (0::real) \<le> 180 \<and> (0::real) \<le> 0.5
   \<and> densityFactor (Num 30) (Num 180) (Num 0.5) \<le> densityFactor (Num 90) (Num 180) (Num 0.5)
   \<and> densityFactor (Num 90) (Num 180) (Num 0.5) \<le> densityFactor (Num 90) (Num 0) (Num 0.5)"
  using densityFactor_properties
    [where v = 50 and e = "0.5" and w_lo = 30 and w_hi = 90 and r_fix = 180 and e_w = "0.5"
       and w_fix = 90 and r_lo = 0 and r_hi = 180 and e_r = "0.5"]
  by simp

text \<open>
  The claim as stated fails in two places. With no rest and half a second of work the
  guard \<open>max(1, w + r)\<close> makes the ratio \<open>0.5 / 1\<close>, so the factor at exponent 1 is
  0.5 and not 1. With the exponent \<open>-1\<close> the factor decreases in the work: 2 at one
  second of work and one of rest, 1.5 at two seconds of work.
\<close>

theorem densityFactor_counterexample:
  "densityFactor (Num 0.5) (Num 0) (Num 1) = Num 0.5
   \<and> densityFactor (Num 1) (Num 1) (Num (- 1)) = Num 2
   \<and> densityFactor (Num 2) (Num 1) (Num (- 1)) = Num 1.5"
  unfolding densityFactor_Num by (simp add: max_def powr_minus)

section \<open>Bouldering load\<close>

lemma boulder_sum:
  "reduce_idx
     (\<lambda>acc c idx.
        let delta = vMax p - grade c;
            ri = riFromDeltaV delta;
            w = climbWeight (Num (real idx) + Num 1) (fatigueRate p)
        in acc + ri * tutSec c * w)
     0 (Num 0) cs
   = (\<Sum>i = 1..length cs.
        riFromDeltaV (vMax p - grade (cs ! (i - 1))) * tutSec (cs ! (i - 1))
          * climbWeight (Num (real i)) (fatigueRate p))"
proof -
  let ?g = "\<lambda>c idx. riFromDeltaV (vMax p - grade c) * tutSec c
                * climbWeight (Num (real idx) + Num 1) (fatigueRate p)"
  let ?h = "\<lambda>i. riFromDeltaV (vMax p - grade (cs ! (i - 1))) * tutSec (cs ! (i - 1))
                * climbWeight (Num (real i)) (fatigueRate p)"
  have "reduce_idx (\<lambda>acc c idx. acc + ?g c idx) 0 (Num 0) cs
        = Num 0 + (\<Sum>j<length cs. ?g (cs ! j) (0 + j))"
    by (rule reduce_idx_sum)
  also have "\<dots> = (\<Sum>j<length cs. ?h (Suc j))"
    by (simp add: add.commute)
  also have "\<dots> = (\<Sum>i = 1..length cs. ?h i)"
    by (rule sum_shift_1)
  finally show ?thesis by (simp add: Let_def)
qed

lemma total_matches_spec: "TLI_boulder (boulderingTLI p) = TLI_boulder_spec p"
  unfolding boulderingTLI_def TLI_boulder_spec_def DF_spec_def totalTUT_spec_def
    totalRestWithin_spec_def Let_def
  by (simp add: boulder_sum[unfolded Let_def, simplified] foldl_sum)

lemma meta_matches_spec:
  "meta (boulderingTLI p) =
     \<lparr>totalTUT = totalTUT_spec p, totalRestWithin = totalRestWithin_spec p,
      FR = restFreshness (restDays p), DF = DF_spec p\<rparr>"
  unfolding boulderingTLI_def DF_spec_def totalTUT_spec_def totalRestWithin_spec_def Let_def
  by (simp add: foldl_sum)

lemma restFreshness_finite: "d \<noteq> NaN \<Longrightarrow> isFinite (restFreshness d)"
  by (cases d) (simp_all add: restFreshness_def clamp_def Let_def)

lemma densityFactor_zero_work:
  "a \<noteq> NaN \<Longrightarrow> Num 0 \<le> e \<Longrightarrow>
   isFinite (densityFactor (Num 0)
         (Math_max (Num 0) ((Num 0 - Num 1) * Math_max (Num 0) a)) e)"
  by (cases a; cases e) (simp_all add: densityFactor_def Let_def minus_number_def)

lemma empty_climbs_total:
  assumes "climbs p = []" "restDays p \<noteq> NaN"
    "useDensity p \<longrightarrow> avgRestBetweenClimbsSec p \<noteq> NaN \<and> Num 0 \<le> densityExp p"
  shows "TLI_boulder (boulderingTLI p) = Num 0"
proof -
  obtain f where f: "restFreshness (restDays p) = Num f"
    using isFinite_Num[OF restFreshness_finite[OF assms(2)]] by blast
  show ?thesis
  proof (cases "useDensity p")
    case False
    with f assms(1) show ?thesis by (simp add: boulderingTLI_def Let_def)
  next
    case True
    with assms(3) obtain g where
      "densityFactor (Num 0)
         (Math_max (Num 0) ((Num 0 - Num 1) * Math_max (Num 0) (avgRestBetweenClimbsSec p)))
         (densityExp p) = Num g"
      using isFinite_Num[OF densityFactor_zero_work] by blast
    with f True assms(1) show ?thesis by (simp add: boulderingTLI_def Let_def)
  qed
qed

text \<open>
  C1, as amended. For every \<^verbatim>\<open>BoulderingParams\<close>, \<^verbatim>\<open>boulderingTLI\<close> returns
  \<open>TLI_boulder = FR(restDays) * DF * \<Sum> RI(vMax - grade\<^sub>i) * tutSec\<^sub>i * climbWeight(i, fatigueRate)\<close>
  over the climbs at 1-indexed positions, where \<open>totalTUT\<close> is the sum of
  \<open>max(0, tutSec\<^sub>i)\<close>, \<open>totalRestWithin = max(0, (n - 1) * max(0, avgRestBetweenClimbsSec))\<close>
  and \<open>DF\<close> is the density factor of these when \<open>useDensity\<close> is true and 1 otherwise.
  For \<open>climbs = []\<close> the total is 0 provided \<open>restDays\<close> is not \<^verbatim>\<open>NaN\<close> and, when
  \<open>useDensity\<close> is true, \<open>avgRestBetweenClimbsSec\<close> is not \<^verbatim>\<open>NaN\<close> and
  \<open>densityExp \<ge> 0\<close>.
\<close>

theorem boulderingTLI_total:
  "TLI_boulder (boulderingTLI p) = TLI_boulder_spec p
   \<and> meta (boulderingTLI p) =
       \<lparr>totalTUT = totalTUT_spec p, totalRestWithin = totalRestWithin_spec p,
        FR = restFreshness (restDays p), DF = DF_spec p\<rparr>
   \<and> (climbs p = [] \<and> restDays p \<noteq> NaN
        \<and> (useDensity p \<longrightarrow> avgRestBetweenClimbsSec p \<noteq> NaN \<and> Num 0 \<le> densityExp p)
        \<longrightarrow> TLI_boulder (boulderingTLI p) = Num 0)"
  using total_matches_spec meta_matches_spec empty_climbs_total by blast

theorem boulderingTLI_total_witness:
  "climbs empty_session = [] \<and> restDays empty_session \<noteq> NaN
   \<and> avgRestBetweenClimbsSec empty_session \<noteq> NaN \<and> Num 0 \<le> densityExp empty_session
   \<and> TLI_boulder (boulderingTLI empty_session) = Num 0"
proof -
  have h: "climbs empty_session = [] \<and> restDays empty_session \<noteq> NaN
           \<and> avgRestBetweenClimbsSec empty_session \<noteq> NaN
           \<and> Num 0 \<le> densityExp empty_session"
    by (simp add: empty_session_def)
  with boulderingTLI_total[of empty_session]
  have "TLI_boulder (boulderingTLI empty_session) = Num 0" by blast
  with h show ?thesis by blast
qed

text \<open>
  The claim as stated fails for an empty climb list when the density exponent is
  negative: the ratio is \<open>0 / max(1, 0) = 0\<close>, \<^verbatim>\<open>Math.pow(0, -1)\<close> is \<^verbatim>\<open>Infinity\<close>, and
  \<open>FR * Infinity * 0\<close> is \<^verbatim>\<open>NaN\<close>, not 0.
\<close>

theorem boulderingTLI_empty_negative_exponent:
  "TLI_boulder (boulderingTLI (empty_session\<lparr>densityExp := Num (- 1)\<rparr>)) = NaN
   \<and> TLI_boulder (boulderingTLI (empty_session\<lparr>densityExp := Num (- 1)\<rparr>)) \<noteq> Num 0"
  by (simp add: empty_session_def boulderingTLI_def Let_def densityFactor_def
      restFreshness_def clamp_def minus_number_def)

text \<open>
  C3. The time under tension of a climb is clamped to \<open>\<ge> 0\<close> in \<open>totalTUT\<close> but enters
  the sum of contributions unclamped. With a first climb of \<open>-10\<close> seconds the total
  time is that of the second climb alone, 30 seconds, as with the first climb set to 0;
  yet the load is \<open>0.89 * 0.25 * 0.725 * (-10 + 30) = 3.22625\<close>, and
  \<open>0.89 * 0.25 * 0.725 * 30 = 4.839375\<close> once the negative time is replaced by 0.
\<close>

theorem boulderingTLI_negative_tutSec:
  "meta (boulderingTLI negative_tut_session) = meta (boulderingTLI clamped_tut_session)
   \<and> totalTUT (meta (boulderingTLI negative_tut_session)) = Num 30
   \<and> TLI_boulder (boulderingTLI negative_tut_session) = Num 3.22625
   \<and> TLI_boulder (boulderingTLI clamped_tut_session) = Num 4.839375"
  by (simp add: negative_tut_session_def clamped_tut_session_def boulderingTLI_def Let_def
      densityFactor_def restFreshness_def clamp_def minus_number_def climbWeight_def
      ri_at_midpoint[simplified])

section \<open>Hangboard load\<close>

lemma perSet_matches_spec: "perSet (hangboardSetTLI row) = perSet_spec row"
  by (cases "grip row")
    (simp_all add: hangboardSetTLI_def perSet_spec_def Let_def relEdge_def gripMult_def
      gripMultiplier_spec_def clamp_def)

subsection \<open>The value of the example\<close>

lemma root20_power:
  fixes c :: real
  assumes "0 < c"
  shows "(c ^ 20) powr (1 / 20) = c"
proof -
  have "(c ^ 20) powr (1 / 20) = (c powr (real 20)) powr (1 / 20)"
    using assms by (simp only: powr_realpow)
  also have "\<dots> = c powr (real 20 * (1 / 20))" by (rule powr_powr)
  also have "\<dots> = c" using assms by simp
  finally show ?thesis .
qed

lemma powr_9_20:
  fixes a :: real
  assumes "0 < a"
  shows "a powr (9 / 20) = (a ^ 9) powr (1 / 20)"
proof -
  have "(a ^ 9) powr (1 / 20) = (a powr (real 9)) powr (1 / 20)"
    using assms by (simp only: powr_realpow)
  also have "\<dots> = a powr (real 9 * (1 / 20))" by (rule powr_powr)
  finally show ?thesis by simp
qed

lemma powr_9_20_lower:
  fixes a c :: real
  assumes "0 < c" "0 < a" "c ^ 20 < a ^ 9"
  shows "c < a powr (9 / 20)"
proof -
  have "(c ^ 20) powr (1 / 20) < (a ^ 9) powr (1 / 20)"
    using assms by (intro powr_less_mono2) simp_all
  then show ?thesis using assms by (simp only: root20_power powr_9_20)
qed

lemma powr_9_20_upper:
  fixes a c :: real
  assumes "0 < c" "0 < a" "a ^ 9 < c ^ 20"
  shows "a powr (9 / 20) < c"
proof -
  have "(a ^ 9) powr (1 / 20) < (c ^ 20) powr (1 / 20)"
    using assms by (intro powr_less_mono2) simp_all
  then show ?thesis using assms by (simp only: root20_power powr_9_20)
qed

text \<open>The edge factor of the example, \<open>(20/15)^0.45\<close>, is about 1.13821.\<close>

lemma relEdge_example_bounds:
  "1.1382 < (4 / 3) powr (9 / 20 :: real)" "(4 / 3) powr (9 / 20 :: real) < 1.1383"
proof -
  show "1.1382 < (4 / 3) powr (9 / 20 :: real)"
    by (rule powr_9_20_lower) (simp_all add: power_divide)
  show "(4 / 3) powr (9 / 20 :: real) < 1.1383"
    by (rule powr_9_20_upper) (simp_all add: power_divide)
qed

lemma ri_below_cap:
  fixes x :: real
  assumes "1 < x"
  shows "80 / (90 * x) < 1.2"
proof -
  from assms have "80 < 1.2 * (90 * x)" by simp
  with assms show ?thesis by (simp add: pos_divide_less_eq)
qed

lemma hb_example_perSet:
  "perSet (hangboardSetTLI hb_example) = Num (400 / (9 * (4 / 3) powr (9 / 20)))"
proof -
  have x: "0 < (4 / 3) powr (9 / 20 :: real)" by simp
  have lo: "1 < (4 / 3) powr (9 / 20 :: real)" using relEdge_example_bounds(1) by simp
  have ri: "80 / (90 * (4 / 3) powr (9 / 20 :: real)) < 1.2"
    using lo by (rule ri_below_cap)
  show ?thesis
    using x ri
    by (simp add: hangboardSetTLI_def hb_example_def Let_def relEdge_def gripMult_def
        clamp_def minus_number_def field_simps)
qed

lemma perSet_window:
  fixes x :: real
  assumes "1.1382 < x" "x < 1.1383"
  shows "39.04 < 400 / (9 * x)" "400 / (9 * x) < 39.05"
proof -
  have pos: "0 < 9 * x" using assms by simp
  have "39.04 * (9 * x) < 400" using assms by simp
  then show "39.04 < 400 / (9 * x)" using pos by (simp only: pos_less_divide_eq)
  have "400 < 39.05 * (9 * x)" using assms by simp
  then show "400 / (9 * x) < 39.05" using pos by (simp only: pos_divide_less_eq)
qed

text \<open>
  C2, as amended. For every hangboard row \<^verbatim>\<open>hangboardSetTLI\<close> computes
  \<open>mvc20 = mvc20kg\<close> if present, else \<open>bodyKg + 20\<close>;
  \<open>mvcEdge = mvc20 * (20/edgeMM)^kEdgeExp * gripMultiplier\<close> (1.1 for full, 0.85 for open,
  1.0 for half); \<open>RI = clamp((bodyKg + addedKg)/mvcEdge, 0, 1.2)\<close>; \<open>TUT = durationSec * reps\<close>;
  \<open>totalRest = restBetweenRepsSec * max(0, reps - 1)\<close>;
  \<open>DF = (TUT / max(1, TUT + totalRest))^densityExpHB\<close>; and \<open>perSet = RI * TUT * DF\<close>.
  The example of the specification yields a load per set between 39.04 and 39.05.
\<close>

theorem hangboardSetTLI_perSet:
  "perSet (hangboardSetTLI row) = perSet_spec row
   \<and> Num 39.04 < perSet (hangboardSetTLI hb_example)
   \<and> perSet (hangboardSetTLI hb_example) < Num 39.05"
  unfolding hb_example_perSet less_number.simps
  using perSet_matches_spec
    perSet_window[OF relEdge_example_bounds] by blast

text \<open>
  The claim as stated gives the load per set of the example as about 39.2. The edge
  factor \<open>(20/15)^0.45\<close> is 1.1382 and not 1.1335, so the load is below 39.05 and does
  not round to 39.2.
\<close>

theorem hangboardSetTLI_example_below:
  "perSet (hangboardSetTLI hb_example) < Num 39.05
   \<and> \<not> Num 39.15 \<le> perSet (hangboardSetTLI hb_example)"
proof -
  have "400 / (9 * (4 / 3) powr (9 / 20 :: real)) < 39.05"
    by (rule perSet_window[OF relEdge_example_bounds])
  then show ?thesis unfolding hb_example_perSet by simp
qed

text \<open>
  C9. The two variants agree on the hangboard module: on the same row, the number that
  \<^verbatim>\<open>hangboardSetTLI\<close> of the minimal calculator returns is the \<^verbatim>\<open>perSet\<close> field of the
  result of \<^verbatim>\<open>hangboardSetTLI\<close> of the time-per-climb calculator.
\<close>

theorem hangboardSetTLI_variants_agree:
  "hangboardSetTLI_minimal row = perSet (hangboardSetTLI row)"
  by (simp add: hangboardSetTLI_minimal_def hangboardSetTLI_def Let_def)

section \<open>Renormalising the grade fractions\<close>

lemma divide_by_one: "x / Num 1 = x"
  by (cases x) simp_all

lemma unit_interval_finite: "Num 0 \<le> x \<Longrightarrow> x \<le> Num 1 \<Longrightarrow> isFinite x"
  by (cases x) simp_all

lemma sumFractions_finite:
  "\<forall>r\<in>set rows. isFinite (fraction r) \<Longrightarrow> sumFractions rows = (\<Sum>r\<leftarrow>rows. fraction r)"
proof -
  assume fin: "\<forall>r\<in>set rows. isFinite (fraction r)"
  have m: "map (\<lambda>r. if isFinite (fraction r) then fraction r else Num 0) rows
           = map fraction rows"
    using fin by (intro map_cong) simp_all
  show ?thesis unfolding sumFractions_def foldl_sum m by simp
qed

lemma normalizeFractions_by_sum:
  "normalizeFractions rows =
     map (\<lambda>r. r\<lparr>fraction := fraction r / (if sumFractions rows > Num 0 then sumFractions rows
                                          else Num 1)\<rparr>) rows"
  by (simp add: normalizeFractions_def sumFractions_def Let_def)

lemma normalized_sum_one:
  fixes rows :: "'a FractionRow_scheme list"
  assumes fin: "\<forall>r\<in>set rows. isFinite (fraction r)"
    and pos: "Num 0 < sumFractions rows"
  shows "(\<Sum>r\<leftarrow>normalizeFractions rows. fraction r) = Num 1"
proof -
  obtain S where S: "sum_list (map fraction rows) = Num S"
    using finite_sum[OF fin] by blast
  have s: "sumFractions rows = Num S"
    using sumFractions_finite[OF fin] S by simp
  with pos have Spos: "0 < S" by simp
  have "map fraction (normalizeFractions rows) = map (\<lambda>r. fraction r / Num S) rows"
    unfolding normalizeFractions_by_sum s using Spos by simp
  then have "(\<Sum>r\<leftarrow>normalizeFractions rows. fraction r) = Num (S / S)"
    using scaled_sum[OF fin S] Spos by simp
  with Spos show ?thesis by simp
qed

lemma normalized_unchanged:
  assumes "\<not> Num 0 < sumFractions rows"
  shows "normalizeFractions rows = rows"
  unfolding normalizeFractions_by_sum using assms
  by (simp add: divide_by_one map_idI)

text \<open>
  C5, as amended. For rows whose fractions lie in the interval from 0 to 1, as the data
  model has them: when the fractions have a positive sum, the fractions in the output of
  \<^verbatim>\<open>normalizeFractions\<close> sum to 1 in exact arithmetic (the doubles of the code round
  each quotient and each partial sum); when the sum is not positive, every fraction is
  divided by 1 and the rows come out unchanged.
\<close>

theorem normalizeFractions_sum:
  fixes rows :: "'a FractionRow_scheme list"
  assumes dom: "\<forall>r\<in>set rows. Num 0 \<le> fraction r \<and> fraction r \<le> Num 1"
  shows "(Num 0 < sumFractions rows \<longrightarrow>
            (\<Sum>r\<leftarrow>normalizeFractions rows. fraction r) = Num 1)
         \<and> (\<not> Num 0 < sumFractions rows \<longrightarrow> normalizeFractions rows = rows)"
proof -
  have fin: "\<forall>r\<in>set rows. isFinite (fraction r)"
    using dom unit_interval_finite by blast
  show ?thesis
    using normalized_sum_one[OF fin] normalized_unchanged by blast
qed

theorem normalizeFractions_sum_witness:
  "Num 0 \<le> Num 0.5 \<and> Num 0.5 \<le> Num 1 \<and> Num 0 \<le> Num 0.25 \<and> Num 0.25 \<le> Num 1
   \<and> Num 0 < sumFractions [\<lparr>fraction = Num 0.5\<rparr>, \<lparr>fraction = Num 0.25\<rparr>]
   \<and> (\<Sum>r\<leftarrow>normalizeFractions [\<lparr>fraction = Num 0.5\<rparr>, \<lparr>fraction = Num 0.25\<rparr>].
         fraction r) = Num 1
   \<and> Num 0 \<le> Num 0
   \<and> \<not> Num 0 < sumFractions [\<lparr>fraction = Num 0\<rparr>, \<lparr>fraction = Num 0\<rparr>]
   \<and> normalizeFractions [\<lparr>fraction = Num 0\<rparr>, \<lparr>fraction = Num 0\<rparr>]
       = [\<lparr>fraction = Num 0\<rparr>, \<lparr>fraction = Num 0\<rparr>]"
proof -
  let ?rows = "[\<lparr>fraction = Num 0.5\<rparr>, \<lparr>fraction = Num 0.25\<rparr>]"
  let ?zeros = "[\<lparr>fraction = Num 0\<rparr>, \<lparr>fraction = Num 0\<rparr>]"
  have dom: "\<forall>r\<in>set ?rows. Num 0 \<le> fraction r \<and> fraction r \<le> Num 1" by simp
  have pos: "Num 0 < sumFractions ?rows" by (simp add: sumFractions_def)
  have dom0: "\<forall>r\<in>set ?zeros. Num 0 \<le> fraction r \<and> fraction r \<le> Num 1" by simp
  have npos: "\<not> Num 0 < sumFractions ?zeros" by (simp add: sumFractions_def)
  have bounds: "Num 0 \<le> Num 0.5 \<and> Num 0.5 \<le> Num 1 \<and> Num 0 \<le> Num 0.25 \<and> Num 0.25 \<le> Num 1
                \<and> Num 0 \<le> Num 0"
    by simp
  from normalizeFractions_sum[OF dom] pos
  have one: "(\<Sum>r\<leftarrow>normalizeFractions ?rows. fraction r) = Num 1" by blast
  from normalizeFractions_sum[OF dom0] npos
  have same: "normalizeFractions ?zeros = ?zeros" by blast
  show ?thesis using bounds pos one npos same by simp
qed

text \<open>
  The claim as stated fails for rows whose fractions are all zero: the sum is not
  positive, the divisor is 1 and the output fractions sum to 0.
\<close>

theorem normalizeFractions_zero_rows:
  "(\<Sum>r\<leftarrow>normalizeFractions [\<lparr>fraction = Num 0\<rparr>, \<lparr>fraction = Num 0\<rparr>]. fraction r) = Num 0
   \<and> (\<Sum>r\<leftarrow>normalizeFractions [\<lparr>fraction = Num 0\<rparr>, \<lparr>fraction = Num 0\<rparr>]. fraction r) \<noteq> Num 1"
  by (simp add: normalizeFractions_def Let_def zero_number_def)

section \<open>Recommendation and spike warning\<close>




subsection \<open>Doubles at work in the spike threshold\<close>















end
